theory Spec2Isabelle
  imports Main "HOL-Library.Sublist"
begin

section \<open>JavaScript strings\<close>

text \<open>
  A JavaScript string is a sequence of UTF-16 code units; \<open>js\<close> turns an ASCII literal
  into one. The three string operations the session engine uses:
  \<^item> \<open>String.prototype.includes\<close>: a case-sensitive test for a contiguous substring;
  \<^item> \<open>String.prototype.toLowerCase\<close>. Its result is only ever searched for lower-case ASCII
    keywords, so what matters is which code units become ASCII letters: the letters \<open>A\<close> to
    \<open>Z\<close>, the Kelvin sign U+212A (to \<open>k\<close>) and the dotted capital I U+0130 (to \<open>i\<close> and a
    combining dot). These are mapped as ECMAScript maps them. Every other code unit is
    left as it is: its lower-case form is not ASCII either;
  \<^item> \<open>String.prototype.trim\<close>: strips the white space and the line terminators of
    ECMAScript from both ends.
\<close>

type_synonym jstring = "nat list"

definition js :: "string \<Rightarrow> jstring" where
  "js s = map of_char s"

fun startsWith :: "jstring \<Rightarrow> jstring \<Rightarrow> bool" where
  "startsWith s [] = True"
| "startsWith [] (n # ns) = False"
| "startsWith (c # cs) (n # ns) = (c = n \<and> startsWith cs ns)"

fun includesStr :: "jstring \<Rightarrow> jstring \<Rightarrow> bool" where
  "includesStr [] n = (n = [])"
| "includesStr (c # cs) n = (startsWith (c # cs) n \<or> includesStr cs n)"

definition toLowerUnit :: "nat \<Rightarrow> jstring" where
  "toLowerUnit u =
     (if 65 \<le> u \<and> u \<le> 90 then [u + 32]
      else if u = 0x130 then [0x69, 0x307]
      else if u = 0x212A then [0x6B]
      else [u])"

definition toLowerCase :: "jstring \<Rightarrow> jstring" where
  "toLowerCase s = concat (map toLowerUnit s)"

definition isSpace :: "nat \<Rightarrow> bool" where
  "isSpace u =
     (u = 0x20 \<or> (9 \<le> u \<and> u \<le> 13) \<or> u = 0xA0 \<or> u = 0x1680
      \<or> (0x2000 \<le> u \<and> u \<le> 0x200A) \<or> u = 0x2028 \<or> u = 0x2029 \<or> u = 0x202F
      \<or> u = 0x205F \<or> u = 0x3000 \<or> u = 0xFEFF)"

definition trim :: "jstring \<Rightarrow> jstring" where
  "trim s = rev (dropWhile isSpace (rev (dropWhile isSpace s)))"

text \<open>The non-ASCII characters of the source's literals, as their code units.\<close>

definition warningSign :: jstring where
  "warningSign = [0x26A0, 0xFE0F]"

definition microphone :: jstring where
  "microphone = [0xD83C, 0xDF99, 0xFE0F]"

definition wavingHand :: jstring where
  "wavingHand = [0xD83D, 0xDC4B]"

definition rupeeSign :: jstring where
  "rupeeSign = [0x20B9]"


section \<open>Error classification: \<open>getErrorMessage\<close> (widget.js)\<close>

text \<open>
  \<open>getErrorMessage(error)\<close> reads \<open>error.message\<close>: \<open>None\<close> is an error without a
  message; an empty message is falsy and takes the same branch. The function returns the
  text shown to the user; \<open>classifyError\<close> names the branch taken, with the kinds of the
  specification's taxonomy. Both follow the source's chain of conditionals, in its order.
\<close>

datatype error_kind = PermissionDenied | InsecureTransport | AssistantMisconfigured | Unknown

definition getErrorMessage :: "jstring option \<Rightarrow> jstring" where
  "getErrorMessage message =
     (case message of
        None \<Rightarrow> js ''Failed to start voice call. Please try again.''
      | Some m \<Rightarrow>
          if m = [] then js ''Failed to start voice call. Please try again.''
          else if includesStr m (js ''permission'') \<or> includesStr m (js ''Permission'')
            then js ''Microphone permission denied. Please allow microphone access and try again.''
          else if includesStr m (js ''secure'') \<or> includesStr m (js ''HTTPS'')
            then js ''Voice calls require HTTPS. Please use a secure connection.''
          else if includesStr m (js ''assistant'')
            then js ''Voice assistant not configured. Please check your settings.''
          else js ''Error: '' @ m)"

definition classifyError :: "jstring option \<Rightarrow> error_kind" where
  "classifyError message =
     (case message of
        None \<Rightarrow> Unknown
      | Some m \<Rightarrow>
          if m = [] then Unknown
          else if includesStr m (js ''permission'') \<or> includesStr m (js ''Permission'')
            then PermissionDenied
          else if includesStr m (js ''secure'') \<or> includesStr m (js ''HTTPS'')
            then InsecureTransport
          else if includesStr m (js ''assistant'')
            then AssistantMisconfigured
          else Unknown)"

text \<open>The text shown for a kind; \<open>Unknown\<close> quotes the raw message when there is one.\<close>

definition errorText :: "error_kind \<Rightarrow> jstring option \<Rightarrow> jstring" where
  "errorText k message =
     (case k of
        PermissionDenied \<Rightarrow>
          js ''Microphone permission denied. Please allow microphone access and try again.''
      | InsecureTransport \<Rightarrow> js ''Voice calls require HTTPS. Please use a secure connection.''
      | AssistantMisconfigured \<Rightarrow>
          js ''Voice assistant not configured. Please check your settings.''
      | Unknown \<Rightarrow>
          (case message of
             None \<Rightarrow> js ''Failed to start voice call. Please try again.''
           | Some m \<Rightarrow>
               if m = [] then js ''Failed to start voice call. Please try again.''
               else js ''Error: '' @ m))"

text \<open>
  The rule table of the specification's ErrorClassifier, as its text states it: the needles
  \<open>permission\<close>, then \<open>secure\<close> or \<open>https\<close>, then \<open>assistant\<close>, tested in this order.
\<close>

definition spec_classifyError :: "jstring \<Rightarrow> error_kind" where
  "spec_classifyError m =
     (if includesStr m (js ''permission'') then PermissionDenied
      else if includesStr m (js ''secure'') \<or> includesStr m (js ''https'')
        then InsecureTransport
      else if includesStr m (js ''assistant'') then AssistantMisconfigured
      else Unknown)"


section \<open>The voice widget: \<open>TravelVoiceWidget\<close> (widget.js)\<close>

text \<open>
  A message of the widget is the object \<open>{text, type, time}\<close> that \<open>addMessage\<close> pushes.
  \<open>type\<close> is one of the three strings \<open>'user'\<close>, \<open>'ai'\<close> and \<open>'system'\<close>. \<open>time\<close> is the
  reading of the clock when the message is made (the source formats it with
  \<open>toLocaleTimeString\<close>; the formatting is not modelled).
\<close>

datatype msg_type = user | ai | system

record wmsg =
  w_text :: jstring
  w_type :: msg_type
  w_time :: nat

text \<open>
  The calls the widget makes on the external voice SDK (\<open>window.vapiSDK\<close>), and what the
  SDK answers. \<open>run\<close> either returns or throws an error, whose \<open>message\<close> may be missing;
  \<open>stop\<close> may be missing from the SDK object, return, or throw.
\<close>

datatype sdk_call = Run jstring jstring | Stop

datatype run_result = RunReturns | RunThrows "jstring option"

datatype stop_result = StopMissing | StopReturns | StopThrows

text \<open>
  The fields of the widget object that the session engine reads and writes, with the part
  of its environment that the properties below speak about: the clock (\<open>now\<close>, in
  milliseconds), the due times of the pending \<open>setTimeout\<close> callbacks of
  \<open>sendTextMessage\<close> (\<open>timers\<close>, oldest first) and the log of the calls made on the SDK
  (\<open>sdkCalls\<close>). \<open>vapiClient\<close> says whether the field holds the SDK object (true) or
  \<open>null\<close>. Writes to the DOM (the panel's HTML, the button's class, the text input being
  emptied) are not modelled.
\<close>

record widget =
  vapiPublicKey :: jstring
  vapiAssistantId :: jstring
  isOpen :: bool
  isListening :: bool
  vapiClient :: bool
  vapiReady :: bool
  messages :: "wmsg list"
  timers :: "nat list"
  sdkCalls :: "sdk_call list"
  now :: nat

definition addMessage :: "jstring \<Rightarrow> msg_type \<Rightarrow> widget \<Rightarrow> widget" where
  "addMessage txt ty w =
     w\<lparr>messages := messages w @ [\<lparr>w_text = txt, w_type = ty, w_time = now w\<rparr>]\<rparr>"

definition showError :: "jstring \<Rightarrow> widget \<Rightarrow> widget" where
  "showError message w = addMessage (warningSign @ js '' '' @ message) system w"

text \<open>
  The constructor followed by \<open>init\<close> and \<open>waitForVapiAndInit\<close>. \<open>sdkLoaded\<close> says whether
  \<open>window.vapiSDK\<close> exists with a \<open>run\<close> function when the script loads: then \<open>initVapi\<close>
  stores the SDK and sets \<open>vapiReady\<close>; otherwise the error is shown as a system message.
  \<open>initWidget\<close> passes both keys as strings, so the logging in \<open>initVapi\<close> cannot throw.
\<close>

definition constructed :: "jstring \<Rightarrow> jstring \<Rightarrow> nat \<Rightarrow> widget" where
  "constructed key assistant t =
     \<lparr>vapiPublicKey = key, vapiAssistantId = assistant, isOpen = False, isListening = False,
      vapiClient = False, vapiReady = False, messages = [], timers = [], sdkCalls = [],
      now = t\<rparr>"

definition waitForVapiAndInit :: "bool \<Rightarrow> widget \<Rightarrow> widget" where
  "waitForVapiAndInit sdkLoaded w =
     (if sdkLoaded then w\<lparr>vapiClient := True, vapiReady := True\<rparr>
      else showError (js ''Voice service unavailable. Please refresh the page.'') w)"

definition newWidget :: "bool \<Rightarrow> jstring \<Rightarrow> jstring \<Rightarrow> nat \<Rightarrow> widget" where
  "newWidget sdkLoaded key assistant t =
     waitForVapiAndInit sdkLoaded (constructed key assistant t)"

definition togglePanel :: "widget \<Rightarrow> widget" where
  "togglePanel w =
     (let w1 = w\<lparr>isOpen := \<not> isOpen w\<rparr> in
      if isOpen w1 \<and> messages w1 = []
      then addMessage
             (if vapiReady w1
              then js ''Hi! I'' @ [0x27] @ js ''m your Travel.ai assistant. I can help you search for flights, check flight status, and find airports. Just ask me anything!''
              else js ''Hi! Voice service is loading. Please wait a moment...'')
             ai w1
      else w1)"

text \<open>
  \<open>startVoiceCall\<close>. The guard returns early with a system message. Past it the widget is
  listening, \<open>run\<close> is called on the SDK, and the catch block takes the widget out of
  listening again when \<open>run\<close> throws.
\<close>

definition startVoiceCall :: "run_result \<Rightarrow> widget \<Rightarrow> widget" where
  "startVoiceCall r w =
     (if \<not> vapiReady w \<or> \<not> vapiClient w
      then showError
             (js ''Voice service is still loading. Please wait a moment and try again.'') w
      else
        (let w1 = w\<lparr>isListening := True,
                     sdkCalls := sdkCalls w @ [Run (vapiPublicKey w) (vapiAssistantId w)]\<rparr>
         in case r of
              RunReturns \<Rightarrow>
                addMessage
                  (microphone
                   @ js '' Voice call started - speak now! The AI will respond with voice.'')
                  system w1
            | RunThrows e \<Rightarrow> (showError (getErrorMessage e) w1)\<lparr>isListening := False\<rparr>))"

text \<open>\<open>onCallStart\<close> is a method of the class that nothing calls.\<close>

definition onCallStart :: "widget \<Rightarrow> widget" where
  "onCallStart w = w\<lparr>isListening := True\<rparr>"

definition onCallEnd :: "widget \<Rightarrow> widget" where
  "onCallEnd w =
     addMessage (js ''Call ended. How else can I help you?'') system (w\<lparr>isListening := False\<rparr>)"

text \<open>
  \<open>endVoiceCall\<close>: \<open>stop\<close> is called when the SDK object has it, and an error it throws is
  caught and logged; \<open>onCallEnd\<close> runs in each case.
\<close>

definition endVoiceCall :: "stop_result \<Rightarrow> widget \<Rightarrow> widget" where
  "endVoiceCall s w =
     (if isListening w
      then onCallEnd (case s of
                        StopMissing \<Rightarrow> w
                      | StopReturns \<Rightarrow> w\<lparr>sdkCalls := sdkCalls w @ [Stop]\<rparr>
                      | StopThrows \<Rightarrow> w\<lparr>sdkCalls := sdkCalls w @ [Stop]\<rparr>)
      else w)"

definition clearMessages :: "widget \<Rightarrow> widget" where
  "clearMessages w = w\<lparr>messages := []\<rparr>"

text \<open>
  \<open>sendTextMessage\<close> reads the text input: \<open>None\<close> when the element is missing, else its
  value. \<open>processUserMessage\<close> only logs. The reply is scheduled one second later.
\<close>

definition sendTextMessage :: "jstring option \<Rightarrow> widget \<Rightarrow> widget" where
  "sendTextMessage input w =
     (case input of
        None \<Rightarrow> w
      | Some v \<Rightarrow>
          if trim v = [] then w
          else (addMessage (js ''...'') ai (addMessage (trim v) user w))
                 \<lparr>timers := timers w @ [now w + 1000]\<rparr>)"

text \<open>
  The callback of that timer. Reading \<open>.text\<close> of the last message throws a TypeError when
  the list is empty (after \<open>clearMessages\<close>); the reply is then not added.
\<close>

datatype js_error = TypeError | SyntaxError | Error jstring

definition typingTimeout :: "widget \<Rightarrow> js_error + widget" where
  "typingTimeout w =
     (if messages w = [] then Inl TypeError
      else
        (let w1 = (if w_text (last (messages w)) = js ''...''
                   then w\<lparr>messages := butlast (messages w)\<rparr> else w)
         in Inr (addMessage
                   (js ''I received your message. How can I help you with your travel plans?'')
                   ai w1)))"

text \<open>
  The events of the widget's event loop. A timer fires no earlier than its due time, the
  oldest first (all have the same delay); an error thrown by the callback ends the
  callback only. \<open>Elapse\<close> lets time pass.
\<close>

datatype wevent =
    TogglePanel
  | StartVoiceCall run_result
  | EndVoiceCall stop_result
  | SendTextMessage "jstring option"
  | ClearMessages
  | TimerFires
  | Elapse nat

definition timerFires :: "widget \<Rightarrow> widget" where
  "timerFires w =
     (case timers w of
        [] \<Rightarrow> w
      | due # rest \<Rightarrow>
          if now w < due then w
          else (case typingTimeout (w\<lparr>timers := rest\<rparr>) of
                  Inl e \<Rightarrow> w\<lparr>timers := rest\<rparr>
                | Inr w' \<Rightarrow> w'))"

fun wstep :: "wevent \<Rightarrow> widget \<Rightarrow> widget" where
  "wstep TogglePanel w = togglePanel w"
| "wstep (StartVoiceCall r) w = startVoiceCall r w"
| "wstep (EndVoiceCall s) w = endVoiceCall s w"
| "wstep (SendTextMessage input) w = sendTextMessage input w"
| "wstep ClearMessages w = clearMessages w"
| "wstep TimerFires w = timerFires w"
| "wstep (Elapse d) w = w\<lparr>now := now w + d\<rparr>"

fun wrun :: "wevent list \<Rightarrow> widget \<Rightarrow> widget" where
  "wrun [] w = w"
| "wrun (e # es) w = wrun es (wstep e w)"

text \<open>
  The typing indicator is the message \<open>sendTextMessage\<close> appends as a placeholder: text
  \<open>...\<close> of type \<open>ai\<close>. It is the specification's ephemeral message.
\<close>

definition isTypingIndicator :: "wmsg \<Rightarrow> bool" where
  "isTypingIndicator m = (w_text m = js ''...'' \<and> w_type m = ai)"

definition ephemeralCount :: "widget \<Rightarrow> nat" where
  "ephemeralCount w = length (filter isTypingIndicator (messages w))"

text \<open>
  The session state of the specification, read off the widget's flags: the widget is
  listening when \<open>isListening\<close> is set, ready when the SDK is initialised and no call is on,
  and not ready before the SDK is initialised (or when its initialisation failed).
\<close>

datatype session_state = NOT_READY | READY | LISTENING

definition sdkReady :: "widget \<Rightarrow> bool" where
  "sdkReady w = (vapiReady w \<and> vapiClient w)"

definition sessionState :: "widget \<Rightarrow> session_state" where
  "sessionState w =
     (if isListening w then LISTENING else if sdkReady w then READY else NOT_READY)"

text \<open>A listening widget has passed the guard of \<open>startVoiceCall\<close>.\<close>

definition listeningImpliesReady :: "widget \<Rightarrow> bool" where
  "listeningImpliesReady w = (isListening w \<longrightarrow> sdkReady w)"

text \<open>
  The messages of the widget that are not typing placeholders, the texts of its user
  messages, and the utterances a list of events submits (the non-blank inputs, trimmed,
  in order).
\<close>

definition settled :: "widget \<Rightarrow> wmsg list" where
  "settled w = filter (\<lambda>m. \<not> isTypingIndicator m) (messages w)"

definition widgetUserTexts :: "widget \<Rightarrow> jstring list" where
  "widgetUserTexts w = map w_text (filter (\<lambda>m. w_type m = user) (messages w))"

fun widgetSentTexts :: "wevent list \<Rightarrow> jstring list" where
  "widgetSentTexts [] = []"
| "widgetSentTexts (SendTextMessage (Some v) # es) =
     (if trim v = [] then widgetSentTexts es else trim v # widgetSentTexts es)"
| "widgetSentTexts (e # es) = widgetSentTexts es"

text \<open>
  The timer callback tests the text of the last message only. In the states the widget
  reaches, a last message with the text \<open>...\<close> is a typing placeholder (a user's message
  with that text is always followed by one).
\<close>

definition dotsLastIsPlaceholder :: "widget \<Rightarrow> bool" where
  "dotsLastIsPlaceholder w =
     (if messages w = [] then True
      else if w_text (last (messages w)) = js ''...'' then w_type (last (messages w)) = ai
      else True)"


section \<open>The chat interface: \<open>ChatInterface\<close> (ChatInterface.js)\<close>

text \<open>
  A message of the chat is the object \<open>{content, type, time}\<close>. The search collaborator
  answers with JSON: \<open>JsonNull\<close> is the value \<open>null\<close>, on which reading a property throws;
  \<open>JsonValue fl\<close> is any other value, with \<open>fl\<close> its \<open>outbound_flights\<close> array (\<open>None\<close> when
  the property is absent or falsy). A flight carries the four fields the reply quotes, as
  the strings the template literal renders them to.
\<close>

record cmsg =
  content :: jstring
  c_type :: msg_type
  c_time :: nat

record flight =
  airline :: jstring
  flight_number :: jstring
  departure_time :: jstring
  price :: jstring

datatype search_data = JsonNull | JsonValue "flight list option"

text \<open>Decimal rendering of \<open>data.outbound_flights.length\<close>.\<close>

function showNat :: "nat \<Rightarrow> jstring" where
  "showNat n = (if n < 10 then [48 + n] else showNat (n div 10) @ [48 + n mod 10])"
  by pat_completeness auto
termination
  by (relation "measure id") auto

datatype intent = FlightSearch | Greeting | HotelSearch | BookingHelp | Fallback

definition flightsFoundReply :: "flight list \<Rightarrow> flight \<Rightarrow> jstring" where
  "flightsFoundReply flights f =
     js ''I found '' @ showNat (length flights) @ js '' flights for you! '' @ [0x0A]
     @ js ''                '' @ [0x0A]
     @ js ''Top option: '' @ airline f @ js '' '' @ flight_number f @ [0x0A]
     @ js ''Departure: '' @ departure_time f @ [0x0A]
     @ js ''Price: '' @ rupeeSign @ price f @ [0x0A]
     @ [0x0A]
     @ js ''Would you like to book this flight or see other options?''"

text \<open>
  \<open>generateAIResponse\<close>. The first conditional returns only when the data holds a flight;
  otherwise control falls through to the conditionals after it, which \<open>laterResponse\<close>
  holds. \<open>classify\<close> and \<open>laterIntent\<close> name the return statement reached, with the intents
  of the specification; they follow the same conditionals.
\<close>

definition laterResponse :: "jstring \<Rightarrow> jstring" where
  "laterResponse lowerMessage =
     (if includesStr lowerMessage (js ''hello'') \<or> includesStr lowerMessage (js ''hi'')
        then js ''Hello! '' @ wavingHand @ js '' Welcome to Travel.ai. I can help you find flights, hotels, and make bookings. What are you looking for today?''
      else if includesStr lowerMessage (js ''hotel'')
        then js ''I can help you find hotels! Where would you like to stay and for which dates?''
      else if includesStr lowerMessage (js ''booking'') \<or> includesStr lowerMessage (js ''reserve'')
        then js ''To make a booking, just tell me your preferences for flights or hotels and I'' @ [0x27] @ js ''ll help you complete the reservation!''
      else js ''I understand you'' @ [0x27] @ js ''re looking for travel options. Could you please specify what you need? For example: '' @ [0x22] @ js ''flights from Bengaluru to Dubai'' @ [0x22] @ js '', or '' @ [0x22] @ js ''hotels in Dubai'' @ [0x22] @ js ''?'')"

definition generateAIResponse :: "jstring \<Rightarrow> search_data \<Rightarrow> js_error + jstring" where
  "generateAIResponse userMessage data =
     (let lowerMessage = toLowerCase userMessage in
      if includesStr lowerMessage (js ''flight'') \<or> includesStr lowerMessage (js ''book'')
      then (case data of
              JsonNull \<Rightarrow> Inl TypeError
            | JsonValue None \<Rightarrow> Inr (laterResponse lowerMessage)
            | JsonValue (Some []) \<Rightarrow> Inr (laterResponse lowerMessage)
            | JsonValue (Some (f # fs)) \<Rightarrow> Inr (flightsFoundReply (f # fs) f))
      else Inr (laterResponse lowerMessage))"

definition laterIntent :: "jstring \<Rightarrow> intent" where
  "laterIntent lowerMessage =
     (if includesStr lowerMessage (js ''hello'') \<or> includesStr lowerMessage (js ''hi'')
        then Greeting
      else if includesStr lowerMessage (js ''hotel'') then HotelSearch
      else if includesStr lowerMessage (js ''booking'') \<or> includesStr lowerMessage (js ''reserve'')
        then BookingHelp
      else Fallback)"

definition classify :: "jstring \<Rightarrow> search_data \<Rightarrow> js_error + intent" where
  "classify userMessage data =
     (let lowerMessage = toLowerCase userMessage in
      if includesStr lowerMessage (js ''flight'') \<or> includesStr lowerMessage (js ''book'')
      then (case data of
              JsonNull \<Rightarrow> Inl TypeError
            | JsonValue None \<Rightarrow> Inr (laterIntent lowerMessage)
            | JsonValue (Some []) \<Rightarrow> Inr (laterIntent lowerMessage)
            | JsonValue (Some (f # fs)) \<Rightarrow> Inr FlightSearch)
      else Inr (laterIntent lowerMessage))"

text \<open>The reply text of an intent, for an utterance and the data.\<close>

definition intentReply :: "jstring \<Rightarrow> search_data \<Rightarrow> intent \<Rightarrow> jstring" where
  "intentReply userMessage data i =
     (case i of
        FlightSearch \<Rightarrow>
          (case data of
             JsonValue (Some (f # fs)) \<Rightarrow> flightsFoundReply (f # fs) f
           | _ \<Rightarrow> [])
      | _ \<Rightarrow> laterResponse (toLowerCase userMessage))"

text \<open>
  The rule table of the specification's IntentRouter, as its text states it: keyword lists
  in priority order, tested on the lower-cased utterance, the first match winning and
  Fallback as the default.
\<close>

definition spec_rules :: "(jstring list \<times> intent) list" where
  "spec_rules =
     [([js ''flight'', js ''book''], FlightSearch),
      ([js ''hello'', js ''hi''], Greeting),
      ([js ''hotel''], HotelSearch),
      ([js ''booking'', js ''reserve''], BookingHelp)]"

fun firstMatch :: "(jstring list \<times> intent) list \<Rightarrow> jstring \<Rightarrow> intent" where
  "firstMatch [] s = Fallback"
| "firstMatch ((keywords, i) # rules) s =
     (if list_ex (includesStr s) keywords then i else firstMatch rules s)"

definition spec_classify :: "jstring \<Rightarrow> intent" where
  "spec_classify utterance = firstMatch spec_rules (toLowerCase utterance)"

text \<open>
  The chat object (\<open>chatMessages\<close> is its field \<open>messages\<close>) with its environment: the
  browser's \<open>localStorage\<close>, the clock, and the invocations of \<open>sendMessage\<close> that are
  suspended at \<open>await fetch\<close>, each with the utterance it holds (\<open>inflight\<close>, oldest first).
  An item of \<open>localStorage\<close> is the JSON text of a message array; \<open>JSON.parse\<close> gives back the
  array \<open>JSON.stringify\<close> was given (objects with three string fields), so the item is
  modelled as the array. Writes to storage are taken to succeed, and the DOM (\<open>render\<close>,
  the input being emptied) is not modelled, except for the list of bubbles that
  \<open>renderMessages\<close> shows. The text input exists whenever \<open>sendMessage\<close> runs: the
  handlers that call it are attached to elements rendered together with it.
\<close>

record chat =
  chatMessages :: "cmsg list"
  isLoading :: bool
  localStorage :: "string \<rightharpoonup> cmsg list"
  inflight :: "jstring list"
  clock :: nat

definition saveMessages :: "chat \<Rightarrow> chat" where
  "saveMessages c = c\<lparr>localStorage := (localStorage c)(''chatMessages'' \<mapsto> chatMessages c)\<rparr>"

definition loadMessages :: "chat \<Rightarrow> chat" where
  "loadMessages c =
     c\<lparr>chatMessages := (case localStorage c ''chatMessages'' of
                           None \<Rightarrow> []
                         | Some saved \<Rightarrow> saved)\<rparr>"

definition chatAddMessage :: "jstring \<Rightarrow> msg_type \<Rightarrow> chat \<Rightarrow> chat" where
  "chatAddMessage txt ty c =
     saveMessages
       (c\<lparr>chatMessages := chatMessages c @ [\<lparr>content = txt, c_type = ty, c_time = clock c\<rparr>]\<rparr>)"

text \<open>The constructor with \<open>init\<close>, over the storage and the clock it finds.\<close>

definition newChat :: "(string \<rightharpoonup> cmsg list) \<Rightarrow> nat \<Rightarrow> chat" where
  "newChat storage t =
     loadMessages
       \<lparr>chatMessages = [], isLoading = False, localStorage = storage, inflight = [],
        clock = t\<rparr>"

definition clearChat :: "bool \<Rightarrow> chat \<Rightarrow> chat" where
  "clearChat confirmed c = (if confirmed then saveMessages (c\<lparr>chatMessages := []\<rparr>) else c)"

text \<open>
  What \<open>renderMessages\<close> shows: nothing but the empty state for an empty list, else one
  bubble a message and, while \<open>isLoading\<close>, the typing indicator after them. The typing
  indicator is the specification's ephemeral message; it is never an entry of the list.
\<close>

datatype bubble = MessageBubble cmsg | TypingBubble

definition renderMessages :: "chat \<Rightarrow> bubble list" where
  "renderMessages c =
     (if chatMessages c = [] then []
      else map MessageBubble (chatMessages c) @ (if isLoading c then [TypingBubble] else []))"

text \<open>
  What \<open>fetch\<close> and \<open>response.json()\<close> give: the request is rejected with an error message,
  or resolves to a response with its \<open>ok\<close> flag and its body (\<open>None\<close> when the body is no
  JSON text, so that \<open>response.json()\<close> rejects).
\<close>

datatype fetch_result = FetchRejects jstring | FetchResolves bool "search_data option"

text \<open>
  \<open>sendMessage\<close> in two parts: up to \<open>await fetch\<close>, and from there on. The second part is
  the rest of the \<open>try\<close> block (an error thrown in it is \<open>Inl\<close>), the \<open>catch\<close> block and
  the \<open>finally\<close> block.
\<close>

definition sendMessage_begin :: "jstring \<Rightarrow> chat \<Rightarrow> chat" where
  "sendMessage_begin input c =
     (let message = trim input in
      if message = [] then c
      else (chatAddMessage message user c)
             \<lparr>isLoading := True, inflight := inflight c @ [message]\<rparr>)"

definition sendMessage_try :: "jstring \<Rightarrow> fetch_result \<Rightarrow> chat \<Rightarrow> js_error + chat" where
  "sendMessage_try message r c =
     (case r of
        FetchRejects e \<Rightarrow> Inl (Error e)
      | FetchResolves ok body \<Rightarrow>
          if \<not> ok then Inl (Error (js ''Failed to get response''))
          else (case body of
                  None \<Rightarrow> Inl SyntaxError
                | Some data \<Rightarrow>
                    (case generateAIResponse message data of
                       Inl e \<Rightarrow> Inl e
                     | Inr aiResponse \<Rightarrow> Inr (chatAddMessage aiResponse ai c))))"

definition sendMessage_resume :: "jstring \<Rightarrow> fetch_result \<Rightarrow> chat \<Rightarrow> js_error + chat" where
  "sendMessage_resume message r c =
     (let c1 = (case sendMessage_try message r c of
                  Inr c' \<Rightarrow> c'
                | Inl e \<Rightarrow>
                    chatAddMessage (js ''Sorry, I encountered an error. Please try again.'') ai c)
      in Inr (c1\<lparr>isLoading := False\<rparr>))"

text \<open>
  The events of the chat's event loop: the user submits the input, the fetch of the
  \<open>i\<close>-th suspended invocation settles, time passes. No timer is registered by
  \<open>sendMessage\<close>, so the passing of time runs no code of the chat.
\<close>

datatype cevent = UserSends jstring | FetchSettles nat fetch_result | TimePasses nat

definition fetchSettles :: "nat \<Rightarrow> fetch_result \<Rightarrow> chat \<Rightarrow> chat" where
  "fetchSettles i r c =
     (if i < length (inflight c)
      then (let c0 = c\<lparr>inflight := take i (inflight c) @ drop (Suc i) (inflight c)\<rparr>
            in case sendMessage_resume (inflight c ! i) r c0 of
                 Inl e \<Rightarrow> c0
               | Inr c' \<Rightarrow> c')
      else c)"

fun cstep :: "cevent \<Rightarrow> chat \<Rightarrow> chat" where
  "cstep (UserSends input) c = sendMessage_begin input c"
| "cstep (FetchSettles i r) c = fetchSettles i r c"
| "cstep (TimePasses d) c = c\<lparr>clock := clock c + d\<rparr>"

fun crun :: "cevent list \<Rightarrow> chat \<Rightarrow> chat" where
  "crun [] c = c"
| "crun (e # es) c = crun es (cstep e c)"

text \<open>The utterances a list of events submits: the non-blank inputs, trimmed, in order.\<close>

fun sentTexts :: "cevent list \<Rightarrow> jstring list" where
  "sentTexts [] = []"
| "sentTexts (UserSends input # es) =
     (if trim input = [] then sentTexts es else trim input # sentTexts es)"
| "sentTexts (e # es) = sentTexts es"

definition userTexts :: "chat \<Rightarrow> jstring list" where
  "userTexts c = map content (filter (\<lambda>m. c_type m = user) (chatMessages c))"

text \<open>
  A fetch that fails: rejected, answered with a non-ok response, or with a body that is
  no JSON.
\<close>

definition fetchFailed :: "fetch_result \<Rightarrow> bool" where
  "fetchFailed r =
     (case r of
        FetchRejects e \<Rightarrow> True
      | FetchResolves ok body \<Rightarrow> \<not> ok \<or> body = None)"

text \<open>
  What the settling of a fetch is to append for an utterance: the text of
  \<open>generateAIResponse\<close> when the response is ok, its body is JSON and the function returns;
  the apology otherwise. \<open>transcript\<close> lists, for a sequence of events and the utterances
  pending before it, the type and content of the messages the events are to append, in
  the order of the events; \<open>typed\<close> reads the same off the chat.
\<close>

definition replyFor :: "jstring \<Rightarrow> fetch_result \<Rightarrow> jstring" where
  "replyFor message r =
     (case r of
        FetchRejects e \<Rightarrow> js ''Sorry, I encountered an error. Please try again.''
      | FetchResolves ok body \<Rightarrow>
          if ok
          then (case body of
                  None \<Rightarrow> js ''Sorry, I encountered an error. Please try again.''
                | Some data \<Rightarrow>
                    (case generateAIResponse message data of
                       Inl e \<Rightarrow> js ''Sorry, I encountered an error. Please try again.''
                     | Inr aiResponse \<Rightarrow> aiResponse))
          else js ''Sorry, I encountered an error. Please try again.'')"

fun transcript :: "cevent list \<Rightarrow> jstring list \<Rightarrow> (msg_type \<times> jstring) list" where
  "transcript [] pending = []"
| "transcript (UserSends input # es) pending =
     (if trim input = [] then transcript es pending
      else (user, trim input) # transcript es (pending @ [trim input]))"
| "transcript (FetchSettles i r # es) pending =
     (if i < length pending
      then (ai, replyFor (pending ! i) r)
             # transcript es (take i pending @ drop (Suc i) pending)
      else transcript es pending)"
| "transcript (TimePasses d # es) pending = transcript es pending"

definition typed :: "chat \<Rightarrow> (msg_type \<times> jstring) list" where
  "typed c = map (\<lambda>m. (c_type m, content m)) (chatMessages c)"

text \<open>The stored item agrees with the message list (a missing item reads as the empty list).\<close>

definition stored :: "chat \<Rightarrow> bool" where
  "stored c =
     ((case localStorage c ''chatMessages'' of None \<Rightarrow> [] | Some saved \<Rightarrow> saved)
        = chatMessages c)"


section \<open>Facts about the string operations\<close>

lemma startsWith_prefix: "startsWith s n \<longleftrightarrow> prefix n s"
  by (induction s n rule: startsWith.induct) auto

lemma includesStr_sublist: "includesStr s n \<longleftrightarrow> sublist n s"
  by (induction s) (auto simp: startsWith_prefix sublist_Cons_right)

lemma trim_empty_iff: "trim v = [] \<longleftrightarrow> (\<forall>u\<in>set v. isSpace u)"
proof (cases "\<forall>u\<in>set v. isSpace u")
  case True
  then have "dropWhile isSpace v = []" by simp
  then have "trim v = []" by (simp only: trim_def rev.simps dropWhile.simps)
  with True show ?thesis by simp
next
  case False
  then have ne: "dropWhile isSpace v \<noteq> []" by simp
  then have "\<not> isSpace (hd (dropWhile isSpace v))" by (rule hd_dropWhile)
  moreover have "hd (dropWhile isSpace v) \<in> set (rev (dropWhile isSpace v))"
    using ne by simp
  ultimately have "dropWhile isSpace (rev (dropWhile isSpace v)) \<noteq> []"
    unfolding dropWhile_eq_Nil_conv by blast
  then have "trim v \<noteq> []" by (simp only: trim_def rev_is_Nil_conv not_False_eq_True)
  with False show ?thesis by simp
qed

lemma getErrorMessage_classifyError:
  "getErrorMessage message = errorText (classifyError message) message"
  by (simp add: getErrorMessage_def classifyError_def errorText_def split: option.splits)


section \<open>The error classifier's rules\<close>

text \<open>
  C5 (as amended). For every raw failure message the classifier applies the source's
  ordered, case-sensitive substring rules: a message containing \<open>permission\<close> or
  \<open>Permission\<close> is PermissionDenied; otherwise one containing \<open>secure\<close> or \<open>HTTPS\<close>
  (upper case) is InsecureTransport; otherwise one containing \<open>assistant\<close> is
  AssistantMisconfigured; otherwise, and when the error carries no message, the result is
  Unknown. "Contains" is the contiguous-sublist relation \<open>sublist\<close>.
\<close>

theorem classifyError_rules:
  "classifyError (Some m) =
     (if sublist (js ''permission'') m \<or> sublist (js ''Permission'') m then PermissionDenied
      else if sublist (js ''secure'') m \<or> sublist (js ''HTTPS'') m then InsecureTransport
      else if sublist (js ''assistant'') m then AssistantMisconfigured
      else Unknown)
   \<and> classifyError None = Unknown"
proof (cases "m = []")
  case True
  then show ?thesis by (simp add: classifyError_def js_def)
next
  case False
  then show ?thesis by (simp add: classifyError_def includesStr_sublist)
qed

text \<open>
  The claim as the specification words it (lower-case \<open>https\<close>) fails: the message
  \<open>https required\<close> has none of the source's needles and is classified Unknown, where the
  specification's table gives InsecureTransport.
\<close>

theorem classifyError_https_counterexample:
  "classifyError (Some (js ''https required'')) = Unknown
   \<and> spec_classifyError (js ''https required'') = InsecureTransport"
  by (simp add: classifyError_def spec_classifyError_def js_def)


section \<open>The typing placeholder of the widget\<close>

lemma trim_hi: "trim (js ''hi'') = js ''hi''"
  by (simp add: trim_def isSpace_def js_def)

lemma wrun_append: "wrun (xs @ ys) w = wrun ys (wrun xs w)"
  by (induction xs arbitrary: w) simp_all

lemma wrun_Elapse: "wrun (map Elapse ds) w = w\<lparr>now := now w + sum_list ds\<rparr>"
  by (induction ds arbitrary: w) (simp_all add: add.assoc)

text \<open>
  C1 (as amended). Every non-blank text submission appends the user's trimmed message and
  then exactly one typing placeholder, which is the last message of the store; it
  replaces nothing, so the number of placeholders grows by one, and while only time passes
  the store stays so. When no earlier timer is pending and the submission's timer fires,
  after a second or more in which nothing but time has passed, the callback removes that
  placeholder and appends the reply: the store is then the earlier messages, the user's
  message and the reply, and the number of placeholders is what it was before the
  submission.
\<close>

theorem sendTextMessage_placeholder:
  assumes "trim v \<noteq> []"
  shows "messages (wrun (SendTextMessage (Some v) # map Elapse ds) w) =
           messages w @ [\<lparr>w_text = trim v, w_type = user, w_time = now w\<rparr>,
                         \<lparr>w_text = js ''...'', w_type = ai, w_time = now w\<rparr>]
    \<and> ephemeralCount (wrun (SendTextMessage (Some v) # map Elapse ds) w) = ephemeralCount w + 1
    \<and> isTypingIndicator (last (messages (wrun (SendTextMessage (Some v) # map Elapse ds) w)))
    \<and> (timers w = [] \<and> 1000 \<le> sum_list ds \<longrightarrow>
          messages (wrun (SendTextMessage (Some v) # map Elapse ds @ [TimerFires]) w) =
            messages w @
              [\<lparr>w_text = trim v, w_type = user, w_time = now w\<rparr>,
               \<lparr>w_text = js ''I received your message. How can I help you with your travel plans?'',
                 w_type = ai, w_time = now w + sum_list ds\<rparr>]
          \<and> ephemeralCount (wrun (SendTextMessage (Some v) # map Elapse ds @ [TimerFires]) w)
              = ephemeralCount w
          \<and> timers (wrun (SendTextMessage (Some v) # map Elapse ds @ [TimerFires]) w) = [])"
proof -
  let ?w1 = "wrun (SendTextMessage (Some v) # map Elapse ds) w"
  have m: "messages ?w1 =
           messages w @ [\<lparr>w_text = trim v, w_type = user, w_time = now w\<rparr>,
                         \<lparr>w_text = js ''...'', w_type = ai, w_time = now w\<rparr>]"
    using assms by (simp add: wrun_Elapse sendTextMessage_def addMessage_def)
  have c: "ephemeralCount ?w1 = ephemeralCount w + 1"
    using m by (simp add: ephemeralCount_def isTypingIndicator_def js_def)
  have l: "isTypingIndicator (last (messages ?w1))"
    using m by (simp add: isTypingIndicator_def)
  have f: "timers w = [] \<and> 1000 \<le> sum_list ds \<longrightarrow>
          messages (wrun (SendTextMessage (Some v) # map Elapse ds @ [TimerFires]) w) =
            messages w @
              [\<lparr>w_text = trim v, w_type = user, w_time = now w\<rparr>,
               \<lparr>w_text = js ''I received your message. How can I help you with your travel plans?'',
                 w_type = ai, w_time = now w + sum_list ds\<rparr>]
          \<and> ephemeralCount (wrun (SendTextMessage (Some v) # map Elapse ds @ [TimerFires]) w)
              = ephemeralCount w
          \<and> timers (wrun (SendTextMessage (Some v) # map Elapse ds @ [TimerFires]) w) = []"
  proof
    assume h: "timers w = [] \<and> 1000 \<le> sum_list ds"
    have "wrun (SendTextMessage (Some v) # map Elapse ds @ [TimerFires]) w = timerFires ?w1"
      using wrun_append [of "SendTextMessage (Some v) # map Elapse ds" "[TimerFires]" w] by simp
    then show "messages (wrun (SendTextMessage (Some v) # map Elapse ds @ [TimerFires]) w) =
            messages w @
              [\<lparr>w_text = trim v, w_type = user, w_time = now w\<rparr>,
               \<lparr>w_text = js ''I received your message. How can I help you with your travel plans?'',
                 w_type = ai, w_time = now w + sum_list ds\<rparr>]
          \<and> ephemeralCount (wrun (SendTextMessage (Some v) # map Elapse ds @ [TimerFires]) w)
              = ephemeralCount w
          \<and> timers (wrun (SendTextMessage (Some v) # map Elapse ds @ [TimerFires]) w) = []"
      using h assms
      by (simp add: wrun_Elapse sendTextMessage_def addMessage_def timerFires_def
          typingTimeout_def ephemeralCount_def isTypingIndicator_def butlast_append Let_def
          js_def)
  qed
  from m c l f show ?thesis by blast
qed

theorem sendTextMessage_placeholder_witness:
  "ephemeralCount
     (wrun (SendTextMessage (Some (js ''hi'')) # map Elapse [400, 600])
        (newWidget True (js ''key'') (js ''asst'') 0)) = 1
   \<and> messages
       (wrun (SendTextMessage (Some (js ''hi'')) # map Elapse [400, 600] @ [TimerFires])
          (newWidget True (js ''key'') (js ''asst'') 0))
     = [\<lparr>w_text = js ''hi'', w_type = user, w_time = 0\<rparr>,
        \<lparr>w_text = js ''I received your message. How can I help you with your travel plans?'',
          w_type = ai, w_time = 1000\<rparr>]
   \<and> ephemeralCount
       (wrun (SendTextMessage (Some (js ''hi'')) # map Elapse [400, 600] @ [TimerFires])
          (newWidget True (js ''key'') (js ''asst'') 0)) = 0"
proof -
  have t: "trim (js ''hi'') \<noteq> []" by (simp add: trim_hi) (simp add: js_def)
  have z: "ephemeralCount (newWidget True (js ''key'') (js ''asst'') 0) = 0
      \<and> messages (newWidget True (js ''key'') (js ''asst'') 0) = []
      \<and> timers (newWidget True (js ''key'') (js ''asst'') 0) = []
      \<and> now (newWidget True (js ''key'') (js ''asst'') 0) = 0"
    by (simp add: ephemeralCount_def newWidget_def waitForVapiAndInit_def constructed_def)
  have d: "(1000::nat) \<le> sum_list [400, 600]" by simp
  have "ephemeralCount
     (wrun (SendTextMessage (Some (js ''hi'')) # map Elapse [400, 600])
        (newWidget True (js ''key'') (js ''asst'') 0))
      = ephemeralCount (newWidget True (js ''key'') (js ''asst'') 0) + 1
   \<and> messages
       (wrun (SendTextMessage (Some (js ''hi'')) # map Elapse [400, 600] @ [TimerFires])
          (newWidget True (js ''key'') (js ''asst'') 0))
     = messages (newWidget True (js ''key'') (js ''asst'') 0) @
       [\<lparr>w_text = trim (js ''hi''), w_type = user,
          w_time = now (newWidget True (js ''key'') (js ''asst'') 0)\<rparr>,
        \<lparr>w_text = js ''I received your message. How can I help you with your travel plans?'',
          w_type = ai,
          w_time = now (newWidget True (js ''key'') (js ''asst'') 0) + sum_list [400, 600]\<rparr>]
   \<and> ephemeralCount
       (wrun (SendTextMessage (Some (js ''hi'')) # map Elapse [400, 600] @ [TimerFires])
          (newWidget True (js ''key'') (js ''asst'') 0))
      = ephemeralCount (newWidget True (js ''key'') (js ''asst'') 0)"
    using sendTextMessage_placeholder
      [OF t, of "[400, 600]" "newWidget True (js ''key'') (js ''asst'') 0"] z d
    by blast
  then show ?thesis using z by (simp add: trim_hi)
qed

text \<open>
  The claim as stated fails: \<open>addMessage\<close> only pushes, so a second submission made before
  the first one's timer has fired leaves two placeholders in the store.
\<close>

theorem overlapping_sends_counterexample:
  "ephemeralCount
     (wrun [SendTextMessage (Some (js ''a'')), SendTextMessage (Some (js ''b''))]
        (newWidget True (js ''key'') (js ''asst'') 0))
   = 2"
  by (simp add: sendTextMessage_def trim_def isSpace_def ephemeralCount_def addMessage_def
      isTypingIndicator_def newWidget_def waitForVapiAndInit_def constructed_def js_def)


section \<open>Starting and ending a voice call\<close>

lemma listeningImpliesReady_new: "listeningImpliesReady (newWidget sdkLoaded key assistant t)"
  by (simp add: listeningImpliesReady_def newWidget_def waitForVapiAndInit_def constructed_def
      showError_def addMessage_def)

lemma listeningImpliesReady_step:
  "listeningImpliesReady w \<Longrightarrow> listeningImpliesReady (wstep e w)"
  by (cases e)
     (auto simp: listeningImpliesReady_def sdkReady_def togglePanel_def startVoiceCall_def
       endVoiceCall_def onCallEnd_def sendTextMessage_def clearMessages_def timerFires_def
       typingTimeout_def showError_def addMessage_def Let_def
       split: if_splits run_result.splits stop_result.splits option.splits list.splits)

lemma listeningImpliesReady_run:
  "listeningImpliesReady w \<Longrightarrow> listeningImpliesReady (wrun es w)"
  by (induction es arbitrary: w) (simp_all add: listeningImpliesReady_step)

text \<open>
  C8. While the SDK is not ready, \<open>startVoiceCall\<close> changes nothing but the conversation,
  to which it appends the system message that the voice service is still loading: the
  session state is what it was (the widget does not start listening) and no call is made
  on the SDK. When the SDK is ready and its \<open>run\<close> returns, the call is placed and the
  widget is listening.
\<close>

theorem startVoiceCall_guard:
  "(\<not> sdkReady w \<longrightarrow>
      startVoiceCall r w =
        w\<lparr>messages := messages w @
            [\<lparr>w_text = warningSign
                 @ js '' Voice service is still loading. Please wait a moment and try again.'',
              w_type = system, w_time = now w\<rparr>]\<rparr>
      \<and> sessionState (startVoiceCall r w) = sessionState w
      \<and> sdkCalls (startVoiceCall r w) = sdkCalls w)
   \<and> (sdkReady w \<longrightarrow>
        sessionState (startVoiceCall RunReturns w) = LISTENING
        \<and> sdkCalls (startVoiceCall RunReturns w) =
            sdkCalls w @ [Run (vapiPublicKey w) (vapiAssistantId w)])"
  by (auto simp: startVoiceCall_def sdkReady_def sessionState_def showError_def addMessage_def
      js_def)

theorem startVoiceCall_guard_witness:
  "sessionState (startVoiceCall RunReturns (newWidget False (js ''key'') (js ''asst'') 0))
     = NOT_READY
   \<and> sdkCalls (startVoiceCall RunReturns (newWidget False (js ''key'') (js ''asst'') 0)) = []
   \<and> length (messages (startVoiceCall RunReturns (newWidget False (js ''key'') (js ''asst'') 0)))
       = 2
   \<and> sessionState (startVoiceCall RunReturns (newWidget True (js ''key'') (js ''asst'') 0))
       = LISTENING
   \<and> sdkCalls (startVoiceCall RunReturns (newWidget True (js ''key'') (js ''asst'') 0))
       = [Run (js ''key'') (js ''asst'')]"
proof -
  have n: "\<not> sdkReady (newWidget False (js ''key'') (js ''asst'') 0)"
    by (simp add: sdkReady_def newWidget_def waitForVapiAndInit_def constructed_def
        showError_def addMessage_def)
  have y: "sdkReady (newWidget True (js ''key'') (js ''asst'') 0)"
    by (simp add: sdkReady_def newWidget_def waitForVapiAndInit_def constructed_def)
  have sn: "sessionState (newWidget False (js ''key'') (js ''asst'') 0) = NOT_READY"
    using n
    by (simp add: sessionState_def newWidget_def waitForVapiAndInit_def constructed_def
        showError_def addMessage_def)
  have cn: "sdkCalls (newWidget False (js ''key'') (js ''asst'') 0) = []
      \<and> length (messages (newWidget False (js ''key'') (js ''asst'') 0)) = 1"
    by (simp add: newWidget_def waitForVapiAndInit_def constructed_def showError_def
        addMessage_def)
  have cy: "sdkCalls (newWidget True (js ''key'') (js ''asst'') 0) = []
      \<and> vapiPublicKey (newWidget True (js ''key'') (js ''asst'') 0) = js ''key''
      \<and> vapiAssistantId (newWidget True (js ''key'') (js ''asst'') 0) = js ''asst''"
    by (simp add: newWidget_def waitForVapiAndInit_def constructed_def)
  have a: "sessionState (startVoiceCall RunReturns (newWidget False (js ''key'') (js ''asst'') 0))
        = sessionState (newWidget False (js ''key'') (js ''asst'') 0)
      \<and> sdkCalls (startVoiceCall RunReturns (newWidget False (js ''key'') (js ''asst'') 0))
        = sdkCalls (newWidget False (js ''key'') (js ''asst'') 0)
      \<and> startVoiceCall RunReturns (newWidget False (js ''key'') (js ''asst'') 0) =
          (newWidget False (js ''key'') (js ''asst'') 0)
            \<lparr>messages := messages (newWidget False (js ''key'') (js ''asst'') 0) @
              [\<lparr>w_text = warningSign
                 @ js '' Voice service is still loading. Please wait a moment and try again.'',
                w_type = system, w_time = now (newWidget False (js ''key'') (js ''asst'') 0)\<rparr>]\<rparr>"
    using startVoiceCall_guard [of "newWidget False (js ''key'') (js ''asst'') 0" RunReturns] n
    by blast
  then have m: "length (messages (startVoiceCall RunReturns (newWidget False (js ''key'') (js ''asst'') 0)))
      = Suc (length (messages (newWidget False (js ''key'') (js ''asst'') 0)))"
    by simp
  from a have a1: "sessionState (startVoiceCall RunReturns (newWidget False (js ''key'') (js ''asst'') 0))
        = sessionState (newWidget False (js ''key'') (js ''asst'') 0)
      \<and> sdkCalls (startVoiceCall RunReturns (newWidget False (js ''key'') (js ''asst'') 0))
        = sdkCalls (newWidget False (js ''key'') (js ''asst'') 0)"
    by blast
  have b: "sessionState (startVoiceCall RunReturns (newWidget True (js ''key'') (js ''asst'') 0))
        = LISTENING
      \<and> sdkCalls (startVoiceCall RunReturns (newWidget True (js ''key'') (js ''asst'') 0)) =
          sdkCalls (newWidget True (js ''key'') (js ''asst'') 0)
            @ [Run (vapiPublicKey (newWidget True (js ''key'') (js ''asst'') 0))
                   (vapiAssistantId (newWidget True (js ''key'') (js ''asst'') 0))]"
    using startVoiceCall_guard [of "newWidget True (js ''key'') (js ''asst'') 0" RunReturns] y
    by blast
  show ?thesis
    using a1 m b sn cn cy by simp
qed

text \<open>
  C9. In every state the widget reaches, \<open>endVoiceCall\<close> on a listening widget calls
  \<open>stop\<close> on the SDK (when the SDK object has that function), leaves the session ready and
  appends exactly one system message, that the call has ended; on a widget that is not
  listening it changes nothing at all.
\<close>

theorem endVoiceCall_listening:
  assumes "w = wrun es (newWidget sdkLoaded key assistant t)"
  shows "(sessionState w = LISTENING \<longrightarrow>
            sessionState (endVoiceCall s w) = READY
            \<and> messages (endVoiceCall s w) =
                messages w @ [\<lparr>w_text = js ''Call ended. How else can I help you?'',
                                w_type = system, w_time = now w\<rparr>]
            \<and> sdkCalls (endVoiceCall s w) =
                sdkCalls w @ (if s = StopMissing then [] else [Stop]))
         \<and> (sessionState w \<noteq> LISTENING \<longrightarrow> endVoiceCall s w = w)"
proof -
  have inv: "listeningImpliesReady w"
    using assms listeningImpliesReady_run [OF listeningImpliesReady_new] by simp
  show ?thesis using inv
    by (cases s)
       (auto simp: listeningImpliesReady_def sessionState_def endVoiceCall_def onCallEnd_def
         addMessage_def sdkReady_def split: if_splits)
qed

theorem endVoiceCall_listening_witness:
  "sessionState
     (endVoiceCall StopReturns
        (wrun [StartVoiceCall RunReturns] (newWidget True (js ''key'') (js ''asst'') 0)))
     = READY
   \<and> sdkCalls
       (endVoiceCall StopReturns
          (wrun [StartVoiceCall RunReturns] (newWidget True (js ''key'') (js ''asst'') 0)))
       = [Run (js ''key'') (js ''asst''), Stop]
   \<and> length (messages
       (endVoiceCall StopReturns
          (wrun [StartVoiceCall RunReturns] (newWidget True (js ''key'') (js ''asst'') 0))))
       = 2
   \<and> endVoiceCall StopReturns (wrun [] (newWidget True (js ''key'') (js ''asst'') 0))
       = newWidget True (js ''key'') (js ''asst'') 0"
proof -
  let ?w0 = "newWidget True (js ''key'') (js ''asst'') 0"
  let ?w1 = "wrun [StartVoiceCall RunReturns] ?w0"
  have l: "sessionState ?w1 = LISTENING"
    by (simp add: sessionState_def startVoiceCall_def newWidget_def waitForVapiAndInit_def
        constructed_def addMessage_def)
  have c: "sdkCalls ?w1 = [Run (js ''key'') (js ''asst'')] \<and> length (messages ?w1) = 1"
    by (simp add: startVoiceCall_def newWidget_def waitForVapiAndInit_def
        constructed_def addMessage_def)
  have r: "sessionState (wrun [] ?w0) \<noteq> LISTENING"
    by (simp add: sessionState_def newWidget_def waitForVapiAndInit_def constructed_def)
  show ?thesis
    using endVoiceCall_listening [of ?w1 "[StartVoiceCall RunReturns]" True "js ''key''" "js ''asst''" 0 StopReturns]
      endVoiceCall_listening [of "wrun [] ?w0" "[]" True "js ''key''" "js ''asst''" 0 StopReturns]
      l c r
    by simp
qed


section \<open>Intent classification\<close>

lemma generateAIResponse_classify:
  "generateAIResponse u d = map_sum id (intentReply u d) (classify u d)"
  by (auto simp: generateAIResponse_def classify_def intentReply_def laterResponse_def
      laterIntent_def Let_def split: search_data.splits option.splits list.splits)

lemma firstMatch_later: "firstMatch (tl spec_rules) s = laterIntent s"
  by (simp add: spec_rules_def laterIntent_def)

lemma lower_find_flights:
  "toLowerCase (js ''Find flights from Bangalore to Dubai'')
     = js ''find flights from bangalore to dubai''"
  by (simp add: toLowerCase_def toLowerUnit_def js_def)

lemma lower_hotel: "toLowerCase (js ''need a hotel in Riyadh'') = js ''need a hotel in riyadh''"
  by (simp add: toLowerCase_def toLowerUnit_def js_def)

lemma lower_hello: "toLowerCase (js ''hello there'') = js ''hello there''"
  by (simp add: toLowerCase_def toLowerUnit_def js_def)

lemma lower_asdf: "toLowerCase (js ''asdf'') = js ''asdf''"
  by (simp add: toLowerCase_def toLowerUnit_def js_def)

text \<open>
  C2 (as amended). Classification follows the fixed, ordered, case-insensitive substring
  rule table, the first match winning, when the collaborator's data holds at least one
  outbound flight. The table's first rule (\<open>flight\<close> or \<open>book\<close>: FlightSearch) applies
  only then: on data without a flight the rules after it decide, and on the data \<open>null\<close>
  an utterance with \<open>flight\<close> or \<open>book\<close> raises a TypeError. So
  \<open>Find flights from Bangalore to Dubai\<close> is a FlightSearch when the data holds a flight,
  while \<open>hello there\<close> is a Greeting, \<open>need a hotel in Riyadh\<close> a HotelSearch and \<open>asdf\<close>
  a Fallback for every data. The result is a function of the utterance and the data alone.
\<close>

theorem classify_rule_table:
  "classify u (JsonValue (Some (f # fs))) = Inr (spec_classify u)
   \<and> classify u (JsonValue (Some [])) = Inr (firstMatch (tl spec_rules) (toLowerCase u))
   \<and> classify u (JsonValue None) = Inr (firstMatch (tl spec_rules) (toLowerCase u))
   \<and> classify u JsonNull =
       (if list_ex (includesStr (toLowerCase u)) [js ''flight'', js ''book'']
        then Inl TypeError else Inr (firstMatch (tl spec_rules) (toLowerCase u)))
   \<and> classify (js ''Find flights from Bangalore to Dubai'') (JsonValue (Some (f # fs)))
       = Inr FlightSearch
   \<and> classify (js ''hello there'') d = Inr Greeting
   \<and> classify (js ''need a hotel in Riyadh'') d = Inr HotelSearch
   \<and> classify (js ''asdf'') d = Inr Fallback"
proof -
  have 1: "classify u (JsonValue (Some (f # fs))) = Inr (spec_classify u)"
    by (simp add: classify_def spec_classify_def spec_rules_def laterIntent_def Let_def)
  have 2: "classify u (JsonValue (Some [])) = Inr (firstMatch (tl spec_rules) (toLowerCase u))"
    by (simp add: classify_def firstMatch_later Let_def)
  have 3: "classify u (JsonValue None) = Inr (firstMatch (tl spec_rules) (toLowerCase u))"
    by (simp add: classify_def firstMatch_later Let_def)
  have 4: "classify u JsonNull =
       (if list_ex (includesStr (toLowerCase u)) [js ''flight'', js ''book'']
        then Inl TypeError else Inr (firstMatch (tl spec_rules) (toLowerCase u)))"
    by (simp add: classify_def firstMatch_later Let_def)
  have 5: "classify (js ''Find flights from Bangalore to Dubai'') (JsonValue (Some (f # fs)))
       = Inr FlightSearch"
    by (simp add: classify_def lower_find_flights Let_def) (simp add: js_def)
  have 6: "classify (js ''hello there'') d = Inr Greeting"
    by (simp add: classify_def lower_hello laterIntent_def Let_def) (simp add: js_def)
  have 7: "classify (js ''need a hotel in Riyadh'') d = Inr HotelSearch"
    by (simp add: classify_def lower_hotel laterIntent_def Let_def) (simp add: js_def)
  have 8: "classify (js ''asdf'') d = Inr Fallback"
    by (simp add: classify_def lower_asdf laterIntent_def Let_def) (simp add: js_def)
  from 1 2 3 4 5 6 7 8 show ?thesis by blast
qed

text \<open>
  The claim as stated fails: classification depends on the collaborator's data. With an
  empty list of flights the first example falls through every rule and is a Fallback,
  where the rule table gives FlightSearch.
\<close>

theorem classify_no_flights_counterexample:
  "classify (js ''Find flights from Bangalore to Dubai'') (JsonValue (Some [])) = Inr Fallback
   \<and> spec_classify (js ''Find flights from Bangalore to Dubai'') = FlightSearch"
  by (simp add: classify_def spec_classify_def spec_rules_def lower_find_flights laterIntent_def
      Let_def) (simp add: js_def)


section \<open>The order of the chat's messages\<close>

lemma chatMessages_chatAddMessage:
  "chatMessages (chatAddMessage body ty c) =
     chatMessages c @ [\<lparr>content = body, c_type = ty, c_time = clock c\<rparr>]"
  by (simp add: chatAddMessage_def saveMessages_def)

lemma sendMessage_resume_messages:
  "\<exists>c' reply. sendMessage_resume m r c = Inr c'
     \<and> chatMessages c' = chatMessages c @ [\<lparr>content = reply, c_type = ai, c_time = clock c\<rparr>]
     \<and> inflight c' = inflight c \<and> clock c' = clock c"
  by (auto simp: sendMessage_resume_def sendMessage_try_def chatAddMessage_def saveMessages_def
      Let_def split: fetch_result.splits option.splits sum.splits)

lemma fetchSettles_messages:
  "\<exists>new. chatMessages (fetchSettles i r c) = chatMessages c @ new
     \<and> filter (\<lambda>m. c_type m = user) new = []"
proof (cases "i < length (inflight c)")
  case True
  obtain c' reply where
    "sendMessage_resume (inflight c ! i) r
        (c\<lparr>inflight := take i (inflight c) @ drop (Suc i) (inflight c)\<rparr>) = Inr c'"
    "chatMessages c' = chatMessages c @ [\<lparr>content = reply, c_type = ai, c_time = clock c\<rparr>]"
    using sendMessage_resume_messages
      [of "inflight c ! i" r "c\<lparr>inflight := take i (inflight c) @ drop (Suc i) (inflight c)\<rparr>"]
    by auto
  with True show ?thesis by (simp add: fetchSettles_def Let_def)
next
  case False
  then show ?thesis by (simp add: fetchSettles_def)
qed

lemma cstep_prefix: "prefix (chatMessages c) (chatMessages (cstep e c))"
proof (cases e)
  case (UserSends input)
  then show ?thesis
    by (simp add: sendMessage_begin_def chatMessages_chatAddMessage Let_def)
next
  case (FetchSettles i r)
  then show ?thesis using fetchSettles_messages [of i r c] by auto
next
  case (TimePasses d)
  then show ?thesis by simp
qed

lemma crun_prefix: "prefix (chatMessages c) (chatMessages (crun es c))"
proof (induction es arbitrary: c)
  case Nil
  show ?case by simp
next
  case (Cons e es)
  have "prefix (chatMessages c) (chatMessages (cstep e c))" by (rule cstep_prefix)
  also have "prefix (chatMessages (cstep e c)) (chatMessages (crun es (cstep e c)))"
    by (rule Cons.IH)
  finally show ?case by simp
qed

lemma cstep_userTexts: "userTexts (cstep e c) = userTexts c @ sentTexts [e]"
proof (cases e)
  case (UserSends input)
  then show ?thesis
    by (simp add: userTexts_def sendMessage_begin_def chatMessages_chatAddMessage Let_def)
next
  case (FetchSettles i r)
  then show ?thesis using fetchSettles_messages [of i r c] by (auto simp: userTexts_def)
next
  case (TimePasses d)
  then show ?thesis by (simp add: userTexts_def)
qed

lemma sentTexts_Cons: "sentTexts (e # es) = sentTexts [e] @ sentTexts es"
  by (cases e) simp_all

lemma crun_userTexts: "userTexts (crun es c) = userTexts c @ sentTexts es"
proof (induction es arbitrary: c)
  case Nil
  show ?case by simp
next
  case (Cons e es)
  have "userTexts (crun (e # es) c) = userTexts (cstep e c) @ sentTexts es"
    using Cons.IH [of "cstep e c"] by simp
  also have "\<dots> = userTexts c @ sentTexts [e] @ sentTexts es"
    by (simp add: cstep_userTexts)
  also have "\<dots> = userTexts c @ sentTexts (e # es)"
    using sentTexts_Cons [of e es] by simp
  finally show ?case .
qed

lemma sendMessage_resume_exact:
  "sendMessage_resume m r c =
     Inr ((chatAddMessage (replyFor m r) ai c)\<lparr>isLoading := False\<rparr>)"
  by (simp add: sendMessage_resume_def sendMessage_try_def replyFor_def Let_def
      split: fetch_result.splits option.splits sum.splits)

lemma cstep_typed: "typed (cstep e c) = typed c @ transcript [e] (inflight c)"
  by (cases e)
     (simp_all add: typed_def sendMessage_begin_def fetchSettles_def sendMessage_resume_exact
       chatAddMessage_def saveMessages_def Let_def)

lemma cstep_inflight:
  "inflight (cstep e c) =
     (case e of
        UserSends input \<Rightarrow> if trim input = [] then inflight c else inflight c @ [trim input]
      | FetchSettles i r \<Rightarrow>
          if i < length (inflight c)
          then take i (inflight c) @ drop (Suc i) (inflight c) else inflight c
      | TimePasses d \<Rightarrow> inflight c)"
  by (cases e)
     (simp_all add: sendMessage_begin_def fetchSettles_def sendMessage_resume_exact
       chatAddMessage_def saveMessages_def Let_def)

lemma crun_typed: "typed (crun es c) = typed c @ transcript es (inflight c)"
proof (induction es arbitrary: c)
  case Nil
  show ?case by simp
next
  case (Cons e es)
  have "typed (crun (e # es) c) = typed (cstep e c) @ transcript es (inflight (cstep e c))"
    using Cons.IH [of "cstep e c"] by simp
  also have "\<dots> = typed c @ transcript (e # es) (inflight c)"
    by (cases e) (simp_all add: cstep_typed cstep_inflight del: cstep.simps)
  finally show ?case .
qed


section \<open>The order of the widget's messages\<close>

lemma warn_not_dots: "warningSign @ js '' '' @ m \<noteq> js ''...''"
  by (simp add: warningSign_def js_def)

lemma started_not_dots:
  "microphone @ js '' Voice call started - speak now! The AI will respond with voice.''
     \<noteq> js ''...''"
  by (simp add: microphone_def js_def)

lemma ended_not_dots: "js ''Call ended. How else can I help you?'' \<noteq> js ''...''"
  by (simp add: js_def)

lemma reply_not_indicator:
  "\<not> isTypingIndicator
       \<lparr>w_text = js ''I received your message. How can I help you with your travel plans?'',
        w_type = ai, w_time = t\<rparr>"
  by (simp add: isTypingIndicator_def js_def)

lemma dotsLastIsPlaceholder_new:
  "dotsLastIsPlaceholder (newWidget sdkLoaded key assistant t)"
  by (simp add: dotsLastIsPlaceholder_def newWidget_def waitForVapiAndInit_def constructed_def
      showError_def addMessage_def warn_not_dots)

lemma typingTimeout_cases:
  "typingTimeout w =
     (if messages w = [] then Inl TypeError
      else Inr (w\<lparr>messages :=
                 (if w_text (last (messages w)) = js ''...'' then butlast (messages w)
                  else messages w)
                 @ [\<lparr>w_text = js ''I received your message. How can I help you with your travel plans?'',
                      w_type = ai, w_time = now w\<rparr>]\<rparr>))"
  by (simp add: typingTimeout_def addMessage_def Let_def)

lemma timerFires_messages:
  "messages (timerFires w) =
     (case timers w of
        [] \<Rightarrow> messages w
      | due # rest \<Rightarrow>
          if now w < due \<or> messages w = [] then messages w
          else (if w_text (last (messages w)) = js ''...'' then butlast (messages w)
                else messages w)
               @ [\<lparr>w_text = js ''I received your message. How can I help you with your travel plans?'',
                    w_type = ai, w_time = now w\<rparr>])"
  by (simp add: timerFires_def typingTimeout_cases split: list.splits)

lemma filter_butlast_last:
  assumes "xs \<noteq> []" and "\<not> P (last xs)"
  shows "filter P (butlast xs) = filter P xs"
proof -
  have "xs = butlast xs @ [last xs]" using assms(1) by simp
  then have "filter P xs = filter P (butlast xs) @ filter P [last xs]"
    by (metis filter_append)
  with assms(2) show ?thesis by simp
qed

lemma timerFires_settled:
  assumes "dotsLastIsPlaceholder w" and "timers w = due # rest" and "due \<le> now w"
    and "messages w \<noteq> []"
  shows "settled (timerFires w) =
           settled w @
             [\<lparr>w_text = js ''I received your message. How can I help you with your travel plans?'',
               w_type = ai, w_time = now w\<rparr>]
    \<and> widgetUserTexts (timerFires w) = widgetUserTexts w
    \<and> dotsLastIsPlaceholder (timerFires w)"
proof (cases "w_text (last (messages w)) = js ''...''")
  case True
  then have ai: "w_type (last (messages w)) = ai"
    using assms(1,4) by (simp add: dotsLastIsPlaceholder_def)
  have m: "messages (timerFires w) = butlast (messages w)
      @ [\<lparr>w_text = js ''I received your message. How can I help you with your travel plans?'',
           w_type = ai, w_time = now w\<rparr>]"
    using assms(2,3,4) True by (simp add: timerFires_messages)
  have f1: "filter (\<lambda>m. \<not> isTypingIndicator m) (butlast (messages w))
      = filter (\<lambda>m. \<not> isTypingIndicator m) (messages w)"
    using assms(4) True ai by (intro filter_butlast_last) (simp_all add: isTypingIndicator_def)
  have f2: "filter (\<lambda>m. w_type m = user) (butlast (messages w))
      = filter (\<lambda>m. w_type m = user) (messages w)"
    using assms(4) ai by (intro filter_butlast_last) simp_all
  show ?thesis
    by (simp add: settled_def widgetUserTexts_def m f1 f2 reply_not_indicator
        dotsLastIsPlaceholder_def)
next
  case False
  have m: "messages (timerFires w) = messages w
      @ [\<lparr>w_text = js ''I received your message. How can I help you with your travel plans?'',
           w_type = ai, w_time = now w\<rparr>]"
    using assms(2,3,4) False by (simp add: timerFires_messages)
  show ?thesis
    by (simp add: settled_def widgetUserTexts_def m reply_not_indicator
        dotsLastIsPlaceholder_def)
qed

lemma timerFires_step:
  assumes "dotsLastIsPlaceholder w"
  shows "prefix (settled w) (settled (timerFires w))
    \<and> widgetUserTexts (timerFires w) = widgetUserTexts w
    \<and> dotsLastIsPlaceholder (timerFires w)"
proof (cases "timers w")
  case Nil
  then show ?thesis using assms by (simp add: timerFires_def)
next
  case (Cons due rest)
  show ?thesis
  proof (cases "now w < due \<or> messages w = []")
    case True
    then have "messages (timerFires w) = messages w"
      using Cons by (simp add: timerFires_messages)
    then show ?thesis using assms
      by (simp add: settled_def widgetUserTexts_def dotsLastIsPlaceholder_def)
  next
    case False
    then have "due \<le> now w" and "messages w \<noteq> []" by simp_all
    then show ?thesis using timerFires_settled [OF assms Cons] by simp
  qed
qed

lemma append_step:
  assumes "messages w' = messages w @ new"
    and "new = [] \<or> w_text (last new) \<noteq> js ''...'' \<or> w_type (last new) = ai"
    and "dotsLastIsPlaceholder w"
  shows "prefix (settled w) (settled w')
    \<and> widgetUserTexts w' = widgetUserTexts w @ map w_text (filter (\<lambda>m. w_type m = user) new)
    \<and> dotsLastIsPlaceholder w'"
  using assms
  by (cases "new = []") (auto simp: settled_def widgetUserTexts_def dotsLastIsPlaceholder_def)

lemma wstep_order:
  assumes "dotsLastIsPlaceholder w" and "e \<noteq> ClearMessages"
  shows "prefix (settled w) (settled (wstep e w))
    \<and> widgetUserTexts (wstep e w) = widgetUserTexts w @ widgetSentTexts [e]
    \<and> dotsLastIsPlaceholder (wstep e w)"
proof (cases e)
  case TogglePanel
  have "\<exists>new. messages (togglePanel w) = messages w @ new
      \<and> (new = [] \<or> w_type (last new) = ai) \<and> filter (\<lambda>m. w_type m = user) new = []"
    by (auto simp: togglePanel_def addMessage_def Let_def)
  then obtain new where "messages (togglePanel w) = messages w @ new"
     "new = [] \<or> w_type (last new) = ai" "filter (\<lambda>m. w_type m = user) new = []" by blast
  then show ?thesis using append_step [of "togglePanel w" w new] assms(1) TogglePanel by auto
next
  case (StartVoiceCall r)
  have "\<exists>new. messages (startVoiceCall r w) = messages w @ new
      \<and> (new = [] \<or> w_text (last new) \<noteq> js ''...'') \<and> filter (\<lambda>m. w_type m = user) new = []"
    by (cases r) (auto simp: startVoiceCall_def showError_def addMessage_def Let_def
        warn_not_dots started_not_dots)
  then obtain new where "messages (startVoiceCall r w) = messages w @ new"
     "new = [] \<or> w_text (last new) \<noteq> js ''...''" "filter (\<lambda>m. w_type m = user) new = []"
    by blast
  then show ?thesis
    using append_step [of "startVoiceCall r w" w new] assms(1) StartVoiceCall by auto
next
  case (EndVoiceCall s)
  have "\<exists>new. messages (endVoiceCall s w) = messages w @ new
      \<and> (new = [] \<or> w_text (last new) \<noteq> js ''...'') \<and> filter (\<lambda>m. w_type m = user) new = []"
    by (cases s) (auto simp: endVoiceCall_def onCallEnd_def addMessage_def ended_not_dots)
  then obtain new where "messages (endVoiceCall s w) = messages w @ new"
     "new = [] \<or> w_text (last new) \<noteq> js ''...''" "filter (\<lambda>m. w_type m = user) new = []"
    by blast
  then show ?thesis using append_step [of "endVoiceCall s w" w new] assms(1) EndVoiceCall by auto
next
  case (SendTextMessage input)
  have "\<exists>new. messages (sendTextMessage input w) = messages w @ new
      \<and> (new = [] \<or> w_type (last new) = ai)
      \<and> map w_text (filter (\<lambda>m. w_type m = user) new) = widgetSentTexts [SendTextMessage input]"
    by (cases input) (auto simp: sendTextMessage_def addMessage_def)
  then obtain new where "messages (sendTextMessage input w) = messages w @ new"
     "new = [] \<or> w_type (last new) = ai"
     "map w_text (filter (\<lambda>m. w_type m = user) new) = widgetSentTexts [SendTextMessage input]"
    by blast
  then show ?thesis
    using append_step [of "sendTextMessage input w" w new] assms(1) SendTextMessage by auto
next
  case ClearMessages
  with assms(2) show ?thesis by simp
next
  case TimerFires
  then show ?thesis using timerFires_step [OF assms(1)] by simp
next
  case (Elapse d)
  then show ?thesis using assms(1)
    by (simp add: settled_def widgetUserTexts_def dotsLastIsPlaceholder_def)
qed

lemma dotsLastIsPlaceholder_step:
  assumes "dotsLastIsPlaceholder w"
  shows "dotsLastIsPlaceholder (wstep e w)"
proof (cases "e = ClearMessages")
  case True
  then show ?thesis by (simp add: clearMessages_def dotsLastIsPlaceholder_def)
next
  case False
  with assms show ?thesis using wstep_order by blast
qed

lemma dotsLastIsPlaceholder_run:
  "dotsLastIsPlaceholder w \<Longrightarrow> dotsLastIsPlaceholder (wrun es w)"
  by (induction es arbitrary: w) (simp_all add: dotsLastIsPlaceholder_step)

lemma widgetSentTexts_Cons:
  "widgetSentTexts (e # es) = widgetSentTexts [e] @ widgetSentTexts es"
proof (cases e)
  case (SendTextMessage input)
  then show ?thesis by (cases input) simp_all
qed simp_all

lemma wrun_order:
  "dotsLastIsPlaceholder w \<Longrightarrow> ClearMessages \<notin> set es \<Longrightarrow>
     prefix (settled w) (settled (wrun es w))
     \<and> widgetUserTexts (wrun es w) = widgetUserTexts w @ widgetSentTexts es"
proof (induction es arbitrary: w)
  case Nil
  show ?case by simp
next
  case (Cons e es)
  then have ne: "e \<noteq> ClearMessages" and nes: "ClearMessages \<notin> set es" by auto
  have s: "prefix (settled w) (settled (wstep e w))
    \<and> widgetUserTexts (wstep e w) = widgetUserTexts w @ widgetSentTexts [e]
    \<and> dotsLastIsPlaceholder (wstep e w)"
    using wstep_order [OF Cons.prems(1) ne] .
  then have ih: "prefix (settled (wstep e w)) (settled (wrun es (wstep e w)))
     \<and> widgetUserTexts (wrun es (wstep e w)) = widgetUserTexts (wstep e w) @ widgetSentTexts es"
    using Cons.IH [of "wstep e w"] nes by blast
  have p: "prefix (settled w) (settled (wrun (e # es) w))"
    using s ih prefix_order.trans by fastforce
  have u: "widgetUserTexts (wrun (e # es) w) = widgetUserTexts w @ widgetSentTexts (e # es)"
    using s ih widgetSentTexts_Cons [of e es] by simp
  from p u show ?case by blast
qed


section \<open>No queue of invocations\<close>

text \<open>
  C3 (as amended). In the chat, over every sequence of submissions, fetch settlements and
  waits, the messages added are exactly those of the events, in the order of the events:
  a non-blank submission appends its user message at once, whether or not another
  invocation is pending, and each fetch that settles appends one assistant message, the
  reply to the utterance of the invocation that settled, or the apology. So the list only
  grows at its end (a message keeps the position it was appended at and each new one
  takes the next), the users' messages appear in the order of the invocations and the
  replies in the order in which the fetches settle. In the widget, in every state it
  reaches and over every sequence of events without a clear, the messages other than
  typing placeholders only grow at the end and the users' messages appear in the order of
  the invocations; a timer callback that is due, on a list that is not empty, appends the
  reply after them.
\<close>

theorem sendMessage_order:
  "prefix (chatMessages c) (chatMessages (crun es c))
   \<and> userTexts (crun es c) = userTexts c @ sentTexts es
   \<and> typed (crun es c) = typed c @ transcript es (inflight c)
   \<and> dotsLastIsPlaceholder (wrun es0 (newWidget sdkLoaded key assistant t))
   \<and> (dotsLastIsPlaceholder w \<and> ClearMessages \<notin> set wes \<longrightarrow>
        prefix (settled w) (settled (wrun wes w))
        \<and> widgetUserTexts (wrun wes w) = widgetUserTexts w @ widgetSentTexts wes)
   \<and> (dotsLastIsPlaceholder w \<and> timers w = due # rest \<and> due \<le> now w \<and> messages w \<noteq> [] \<longrightarrow>
        settled (wstep TimerFires w) =
          settled w @
            [\<lparr>w_text = js ''I received your message. How can I help you with your travel plans?'',
              w_type = ai, w_time = now w\<rparr>])"
proof -
  have 1: "prefix (chatMessages c) (chatMessages (crun es c))
      \<and> userTexts (crun es c) = userTexts c @ sentTexts es
      \<and> typed (crun es c) = typed c @ transcript es (inflight c)"
    by (simp add: crun_prefix crun_userTexts crun_typed)
  have 2: "dotsLastIsPlaceholder (wrun es0 (newWidget sdkLoaded key assistant t))"
    by (rule dotsLastIsPlaceholder_run [OF dotsLastIsPlaceholder_new])
  have 3: "dotsLastIsPlaceholder w \<and> ClearMessages \<notin> set wes \<longrightarrow>
        prefix (settled w) (settled (wrun wes w))
        \<and> widgetUserTexts (wrun wes w) = widgetUserTexts w @ widgetSentTexts wes"
    using wrun_order [of w wes] by blast
  have 4: "dotsLastIsPlaceholder w \<and> timers w = due # rest \<and> due \<le> now w \<and> messages w \<noteq> []
      \<longrightarrow> settled (wstep TimerFires w) =
          settled w @
            [\<lparr>w_text = js ''I received your message. How can I help you with your travel plans?'',
              w_type = ai, w_time = now w\<rparr>]"
    using timerFires_settled [of w due rest] by simp
  from 1 2 3 4 show ?thesis by blast
qed

theorem sendMessage_order_witness:
  "typed (crun [UserSends (js ''hi''), FetchSettles 0 (FetchRejects (js ''offline''))]
            (newChat Map.empty 0))
     = [(user, js ''hi''), (ai, js ''Sorry, I encountered an error. Please try again.'')]
   \<and> widgetUserTexts
       (wrun [SendTextMessage (Some (js ''hi'')), Elapse 1000, TimerFires]
          (newWidget True (js ''key'') (js ''asst'') 0))
     = [js ''hi'']
   \<and> settled
       (wstep TimerFires
          (wrun [SendTextMessage (Some (js ''hi'')), Elapse 1000]
             (newWidget True (js ''key'') (js ''asst'') 0)))
     = [\<lparr>w_text = js ''hi'', w_type = user, w_time = 0\<rparr>,
        \<lparr>w_text = js ''I received your message. How can I help you with your travel plans?'',
          w_type = ai, w_time = 1000\<rparr>]"
proof -
  let ?w0 = "newWidget True (js ''key'') (js ''asst'') 0"
  let ?w1 = "wrun [SendTextMessage (Some (js ''hi'')), Elapse 1000] ?w0"
  let ?wes = "[SendTextMessage (Some (js ''hi'')), Elapse 1000, TimerFires]"
  let ?es = "[UserSends (js ''hi''), FetchSettles 0 (FetchRejects (js ''offline''))]"
  have t: "trim (js ''hi'') \<noteq> []" by (simp add: trim_hi) (simp add: js_def)
  have c: "typed (crun ?es (newChat Map.empty 0))
      = typed (newChat Map.empty 0) @ transcript ?es (inflight (newChat Map.empty 0))"
    using sendMessage_order [where c = "newChat Map.empty 0" and es = ?es] by blast
  have c0: "typed (newChat Map.empty 0) = [] \<and> inflight (newChat Map.empty 0) = []"
    by (simp add: typed_def newChat_def loadMessages_def)
  have c1: "transcript ?es [] =
      [(user, js ''hi''), (ai, js ''Sorry, I encountered an error. Please try again.'')]"
    using t by (simp add: trim_hi replyFor_def)
  have d0: "dotsLastIsPlaceholder ?w0"
    using sendMessage_order [where ?es0.0 = "[]" and sdkLoaded = True and key = "js ''key''"
        and assistant = "js ''asst''" and t = 0] by simp
  have d1: "dotsLastIsPlaceholder ?w1"
    using sendMessage_order [where ?es0.0 = "[SendTextMessage (Some (js ''hi'')), Elapse 1000]"
        and sdkLoaded = True and key = "js ''key''" and assistant = "js ''asst''" and t = 0]
    by blast
  have nc: "ClearMessages \<notin> set ?wes" by simp
  have u: "widgetUserTexts (wrun ?wes ?w0) = widgetUserTexts ?w0 @ widgetSentTexts ?wes"
    using sendMessage_order [where w = ?w0 and wes = ?wes] d0 nc by blast
  have u0: "widgetUserTexts ?w0 = []"
    by (simp add: widgetUserTexts_def newWidget_def waitForVapiAndInit_def constructed_def)
  have u1: "widgetSentTexts ?wes = [js ''hi'']"
    using t by (simp add: trim_hi)
  have p: "timers ?w1 = [1000] \<and> now ?w1 = 1000
      \<and> messages ?w1 = [\<lparr>w_text = js ''hi'', w_type = user, w_time = 0\<rparr>,
                        \<lparr>w_text = js ''...'', w_type = ai, w_time = 0\<rparr>]"
    using t
    by (simp add: sendTextMessage_def trim_hi addMessage_def newWidget_def
        waitForVapiAndInit_def constructed_def)
  then have pre: "timers ?w1 = 1000 # [] \<and> 1000 \<le> now ?w1 \<and> messages ?w1 \<noteq> []" by simp
  have s: "settled (wstep TimerFires ?w1) =
      settled ?w1 @
        [\<lparr>w_text = js ''I received your message. How can I help you with your travel plans?'',
          w_type = ai, w_time = now ?w1\<rparr>]"
    using sendMessage_order [where w = ?w1 and due = 1000 and rest = "[]"] d1 pre by blast
  have s1: "settled ?w1 = [\<lparr>w_text = js ''hi'', w_type = user, w_time = 0\<rparr>]"
    using p by (simp add: settled_def isTypingIndicator_def)
  have n1: "now ?w1 = 1000" using p by simp
  show ?thesis
    using c c0 c1 u u0 u1 s s1 n1 by simp
qed

text \<open>
  The claim as stated fails: a second invocation made while the first is pending appends
  its user message at once, and when its fetch settles first its reply (to \<open>hotel\<close>) comes
  before the reply to the first invocation (to \<open>hello\<close>).
\<close>

theorem interleaving_counterexample:
  "map (\<lambda>m. (c_type m, take 5 (content m)))
     (chatMessages
        (crun [UserSends (js ''hello''), UserSends (js ''hotel''),
               FetchSettles 1 (FetchResolves True (Some (JsonValue None))),
               FetchSettles 0 (FetchResolves True (Some (JsonValue None)))]
           (newChat Map.empty 0)))
   = [(user, js ''hello''), (user, js ''hotel''), (ai, js ''I can''), (ai, js ''Hello'')]"
  by (simp add: sendMessage_begin_def trim_def isSpace_def newChat_def loadMessages_def
      chatAddMessage_def saveMessages_def fetchSettles_def sendMessage_resume_def
      sendMessage_try_def generateAIResponse_def laterResponse_def toLowerCase_def
      toLowerUnit_def Let_def js_def)


section \<open>A failing search collaborator\<close>

text \<open>
  C4 (as amended). When the call of the search collaborator fails (the fetch is rejected,
  the response is not ok, or its body is no JSON), the rest of \<open>sendMessage\<close> returns
  normally for every utterance: the loading placeholder is gone, and the assistant's
  apology is the one message appended. Nothing else is kept of the failure.
\<close>

theorem sendMessage_failure_recovers:
  assumes "fetchFailed r"
  shows "\<exists>c'. sendMessage_resume m r c = Inr c'
           \<and> \<not> isLoading c'
           \<and> chatMessages c' = chatMessages c @
                [\<lparr>content = js ''Sorry, I encountered an error. Please try again.'',
                  c_type = ai, c_time = clock c\<rparr>]
           \<and> TypingBubble \<notin> set (renderMessages c')
           \<and> inflight c' = inflight c"
  using assms
  by (auto simp: fetchFailed_def sendMessage_resume_def sendMessage_try_def chatAddMessage_def
      saveMessages_def renderMessages_def Let_def split: fetch_result.splits)

theorem sendMessage_failure_recovers_witness:
  "\<exists>c'. sendMessage_resume (js ''hi'') (FetchRejects (js ''Failed to fetch''))
            (sendMessage_begin (js ''hi'') (newChat Map.empty 0)) = Inr c'
         \<and> \<not> isLoading c'
         \<and> map content (chatMessages c') =
             [js ''hi'', js ''Sorry, I encountered an error. Please try again.'']"
proof -
  have f: "fetchFailed (FetchRejects (js ''Failed to fetch''))" by (simp add: fetchFailed_def)
  have b: "map content (chatMessages (sendMessage_begin (js ''hi'') (newChat Map.empty 0)))
      = [js ''hi'']"
    by (simp add: sendMessage_begin_def trim_hi newChat_def loadMessages_def chatAddMessage_def
        saveMessages_def Let_def) (simp add: js_def)
  show ?thesis
    using sendMessage_failure_recovers
      [OF f, of "js ''hi''" "sendMessage_begin (js ''hi'') (newChat Map.empty 0)"] b
    by auto
qed

text \<open>
  The claim as stated fails: no error kind is recorded. A rejection that the classifier
  calls PermissionDenied and one it calls Unknown leave the chat in the same state.
\<close>

theorem error_kind_not_recorded_counterexample:
  "sendMessage_resume (js ''hi'') (FetchRejects (js ''permission denied''))
       (sendMessage_begin (js ''hi'') (newChat Map.empty 0))
     = sendMessage_resume (js ''hi'') (FetchRejects (js ''offline''))
         (sendMessage_begin (js ''hi'') (newChat Map.empty 0))
   \<and> classifyError (Some (js ''permission denied'')) = PermissionDenied
   \<and> classifyError (Some (js ''offline'')) = Unknown"
  by (simp add: sendMessage_resume_def sendMessage_try_def classifyError_def js_def)


section \<open>No timeout on the search collaborator\<close>

lemma crun_TimePasses: "crun (map TimePasses ds) c = c\<lparr>clock := clock c + sum_list ds\<rparr>"
  by (induction ds arbitrary: c) (simp_all add: add.assoc)

text \<open>
  C6 (as amended). The call of the search collaborator has no timeout: after a non-blank
  submission, however much time passes without the fetch settling, the invocation is
  still pending, the loading placeholder is still shown and nothing has been appended
  after the user's message. When the fetch then fails, at whatever time, the placeholder
  is removed and the assistant's apology is appended.
\<close>

theorem fetch_has_no_timeout:
  assumes "trim v \<noteq> []"
  shows "isLoading (crun (map TimePasses ds) (sendMessage_begin v c))
    \<and> inflight (crun (map TimePasses ds) (sendMessage_begin v c)) = inflight c @ [trim v]
    \<and> chatMessages (crun (map TimePasses ds) (sendMessage_begin v c)) =
        chatMessages c @ [\<lparr>content = trim v, c_type = user, c_time = clock c\<rparr>]
    \<and> (fetchFailed r \<longrightarrow>
        \<not> isLoading (fetchSettles (length (inflight c)) r
                        (crun (map TimePasses ds) (sendMessage_begin v c)))
        \<and> chatMessages (fetchSettles (length (inflight c)) r
                          (crun (map TimePasses ds) (sendMessage_begin v c))) =
            chatMessages c @
              [\<lparr>content = trim v, c_type = user, c_time = clock c\<rparr>,
               \<lparr>content = js ''Sorry, I encountered an error. Please try again.'',
                 c_type = ai, c_time = clock c + sum_list ds\<rparr>])"
  using assms
  by (auto simp: crun_TimePasses sendMessage_begin_def chatAddMessage_def saveMessages_def
      fetchSettles_def sendMessage_resume_def sendMessage_try_def fetchFailed_def Let_def
      nth_append split: fetch_result.splits)

theorem fetch_has_no_timeout_witness:
  "isLoading (crun (map TimePasses [4000, 6000]) (sendMessage_begin (js ''hi'') (newChat Map.empty 0)))
   \<and> inflight (crun (map TimePasses [4000, 6000]) (sendMessage_begin (js ''hi'') (newChat Map.empty 0)))
       = [js ''hi'']
   \<and> \<not> isLoading (fetchSettles 0 (FetchResolves False None)
         (crun (map TimePasses [4000, 6000]) (sendMessage_begin (js ''hi'') (newChat Map.empty 0))))
   \<and> chatMessages (fetchSettles 0 (FetchResolves False None)
         (crun (map TimePasses [4000, 6000]) (sendMessage_begin (js ''hi'') (newChat Map.empty 0))))
       = [\<lparr>content = js ''hi'', c_type = user, c_time = 0\<rparr>,
          \<lparr>content = js ''Sorry, I encountered an error. Please try again.'',
            c_type = ai, c_time = 10000\<rparr>]"
proof -
  have t: "trim (js ''hi'') \<noteq> []" by (simp add: trim_hi) (simp add: js_def)
  have f: "fetchFailed (FetchResolves False None)" by (simp add: fetchFailed_def)
  have n: "inflight (newChat Map.empty 0) = [] \<and> chatMessages (newChat Map.empty 0) = []
      \<and> clock (newChat Map.empty 0) = 0"
    by (simp add: newChat_def loadMessages_def)
  show ?thesis
    using fetch_has_no_timeout
      [OF t, of "[4000, 6000]" "newChat Map.empty 0" "FetchResolves False None"] f n
    by (simp add: trim_hi)
qed

text \<open>
  The claim as stated fails: an hour after the submission, with the fetch not settled, the
  placeholder is still shown, the invocation is still pending and no apology has been
  appended.
\<close>

theorem fetch_pending_counterexample:
  "isLoading (crun [UserSends (js ''hi''), TimePasses 3600000] (newChat Map.empty 0))
   \<and> inflight (crun [UserSends (js ''hi''), TimePasses 3600000] (newChat Map.empty 0))
       = [js ''hi'']
   \<and> map content (chatMessages
         (crun [UserSends (js ''hi''), TimePasses 3600000] (newChat Map.empty 0)))
       = [js ''hi'']"
  by (simp add: sendMessage_begin_def trim_hi newChat_def loadMessages_def
      chatAddMessage_def saveMessages_def Let_def) (simp add: js_def)


section \<open>Persisting and restoring the chat\<close>

lemma stored_new: "stored (newChat st t)"
  by (simp add: stored_def newChat_def loadMessages_def)

lemma stored_step: "stored c \<Longrightarrow> stored (cstep e c)"
  by (cases e)
     (auto simp: stored_def sendMessage_begin_def fetchSettles_def sendMessage_resume_def
       sendMessage_try_def chatAddMessage_def saveMessages_def Let_def
       split: fetch_result.splits option.splits sum.splits)

lemma stored_run: "stored c \<Longrightarrow> stored (crun es c)"
  by (induction es arbitrary: c) (simp_all add: stored_step)

lemma render_reload:
  "stored c \<Longrightarrow> renderMessages (newChat (localStorage c) t)
      = filter (\<lambda>b. b \<noteq> TypingBubble) (renderMessages c)"
  by (auto simp: stored_def newChat_def loadMessages_def renderMessages_def filter_map comp_def
      split: option.splits)

text \<open>
  C7. Restoring after persisting reproduces the conversation without its ephemeral entry,
  in the same order: a chat constructed over the storage that \<open>saveMessages\<close> has written
  holds the same message list, and shows what the persisted chat showed with the typing
  indicator removed. Every mutation of the list persists it, so the same holds for a chat
  constructed over the storage left by any run of the chat.
\<close>

theorem restore_persist:
  "chatMessages (newChat (localStorage (saveMessages c)) t) = chatMessages c
   \<and> renderMessages (newChat (localStorage (saveMessages c)) t)
       = filter (\<lambda>b. b \<noteq> TypingBubble) (renderMessages c)
   \<and> renderMessages (newChat (localStorage (crun es (newChat st t0))) t)
       = filter (\<lambda>b. b \<noteq> TypingBubble) (renderMessages (crun es (newChat st t0)))"
proof -
  have s: "stored (saveMessages c)" by (simp add: stored_def saveMessages_def)
  have 1: "chatMessages (newChat (localStorage (saveMessages c)) t) = chatMessages c"
    by (simp add: newChat_def loadMessages_def saveMessages_def)
  have r: "renderMessages (saveMessages c) = renderMessages c"
    by (simp add: renderMessages_def saveMessages_def)
  have 2: "renderMessages (newChat (localStorage (saveMessages c)) t)
       = filter (\<lambda>b. b \<noteq> TypingBubble) (renderMessages c)"
    using render_reload [OF s, of t] r by simp
  have 3: "renderMessages (newChat (localStorage (crun es (newChat st t0))) t)
       = filter (\<lambda>b. b \<noteq> TypingBubble) (renderMessages (crun es (newChat st t0)))"
    by (rule render_reload [OF stored_run [OF stored_new]])
  from 1 2 3 show ?thesis by blast
qed


section \<open>Blank input\<close>

text \<open>
  C10. Submitting an input that is empty or made of white space only changes nothing, in
  the widget and in the chat: the whole state is what it was, so the message list is
  unchanged, no placeholder is shown, no timer is set and no request is in flight that
  was not before.
\<close>

theorem blank_input_noop:
  assumes "\<forall>u\<in>set v. isSpace u"
  shows "sendTextMessage (Some v) w = w
    \<and> wstep (SendTextMessage (Some v)) w = w
    \<and> sendMessage_begin v c = c
    \<and> cstep (UserSends v) c = c"
  using assms trim_empty_iff [of v]
  by (simp add: sendTextMessage_def sendMessage_begin_def)

theorem blank_input_noop_witness:
  "sendTextMessage (Some (js ''   '')) (newWidget True (js ''key'') (js ''asst'') 0)
     = newWidget True (js ''key'') (js ''asst'') 0
   \<and> sendMessage_begin (js ''   '') (newChat Map.empty 0) = newChat Map.empty 0
   \<and> sendTextMessage (Some []) (newWidget True (js ''key'') (js ''asst'') 0)
     = newWidget True (js ''key'') (js ''asst'') 0
   \<and> sendMessage_begin [] (newChat Map.empty 0) = newChat Map.empty 0"
proof -
  have h: "\<forall>u\<in>set (js ''   ''). isSpace u" by (simp add: isSpace_def js_def)
  have e: "\<forall>u\<in>set ([] :: jstring). isSpace u" by simp
  show ?thesis
    using blank_input_noop [OF h, of "newWidget True (js ''key'') (js ''asst'') 0" "newChat Map.empty 0"]
      blank_input_noop [OF e, of "newWidget True (js ''key'') (js ''asst'') 0" "newChat Map.empty 0"]
    by simp
qed

end
